theory Spec2Isabelle
  imports Main "HOL-Library.Sublist" "HOL-Library.Multiset"
begin

section \<open>JavaScript values and built-ins used by the two pages\<close>

text \<open>
  \<^verbatim>\<open>src/app/page.tsx\<close> holds two variants of the page component \<^verbatim>\<open>Home\<close>: the generic
  CSV sorter (lines 1-280) and the card sorter with a fixed schema (lines 281-454).

  A cell of the generic variant has the type \<^verbatim>\<open>string | number | boolean\<close>. Strings are
  byte strings. A number cell carries an integer: the numbers of the model are the
  JavaScript numbers with an integer value, and what the engine computes on them (the
  subtraction with its rounding, the conversion to a string) is a parameter of the model.
\<close>

datatype cell = VStr string | VNum int | VBool bool

text \<open>A row object: its own properties in insertion order.\<close>

type_synonym CSVRow = "(string \<times> cell) list"

text \<open>\<^verbatim>\<open>Object.values(row)\<close> and \<^verbatim>\<open>Object.keys(row)\<close>.\<close>

definition Object_values :: "('k \<times> 'v) list \<Rightarrow> 'v list" where
  "Object_values row = map snd row"

definition Object_keys :: "('k \<times> 'v) list \<Rightarrow> 'k list" where
  "Object_keys row = map fst row"

text \<open>\<^verbatim>\<open>s.includes(t)\<close>: \<open>t\<close> occurs in \<open>s\<close> as a contiguous run.\<close>

fun str_includes :: "string \<Rightarrow> string \<Rightarrow> bool" where
  "str_includes [] t = (t = [])"
| "str_includes (c # cs) t = (prefix t (c # cs) \<or> str_includes cs t)"

text \<open>\<^verbatim>\<open>s.toLowerCase()\<close> on byte strings: the letters A to Z are mapped to a to z.\<close>

definition lowerChar :: "char \<Rightarrow> char" where
  "lowerChar c =
     (let n = (of_char c :: nat) in if 65 \<le> n \<and> n \<le> 90 then char_of (n + 32) else c)"

definition toLowerCase :: "string \<Rightarrow> string" where
  "toLowerCase s = map lowerChar s"

section \<open>Generic variant: filtering (page.tsx, lines 31-35)\<close>

text \<open>
  \<^verbatim>\<open>
  results.data.filter((row) => {
    return !Object.values(row).some((value) =>
      typeof value === 'string' && value.includes('Orders Contained in Pull Sheet'));
  })
  \<close>
\<close>

fun isNoiseValue :: "cell \<Rightarrow> bool" where
  "isNoiseValue (VStr s) = str_includes s ''Orders Contained in Pull Sheet''"
| "isNoiseValue (VNum n) = False"
| "isNoiseValue (VBool b) = False"

definition filterRows :: "CSVRow list \<Rightarrow> CSVRow list" where
  "filterRows rows = filter (\<lambda>row. \<not> list_ex isNoiseValue (Object_values row)) rows"

section \<open>Card variant: filtering (page.tsx, lines 324-335)\<close>

text \<open>
  The card variant parses with \<^verbatim>\<open>header: true\<close> and
  \<^verbatim>\<open>transform: (value) => value.trim()\<close> and without dynamic typing, so every cell of
  \<^verbatim>\<open>results.data\<close> is a string; the test \<^verbatim>\<open>typeof value === 'string'\<close> of the filter
  holds for each of them.
  \<^verbatim>\<open>
  .filter((row: any) => {
    return !Object.values(row).some((value: any) => {
      if (typeof value === 'string') {
        const lowerValue = value.toLowerCase();
        return lowerValue.includes('orders contained in pull sheet')
            || lowerValue.includes('pull sheet');
      }
      return false;
    });
  })
  \<close>
\<close>

type_synonym RawRow = "(string \<times> string) list"

definition isNoiseCell :: "string \<Rightarrow> bool" where
  "isNoiseCell v =
     (let lowerValue = toLowerCase v
      in str_includes lowerValue ''orders contained in pull sheet'' \<or> str_includes lowerValue ''pull sheet'')"

definition filterCards :: "RawRow list \<Rightarrow> RawRow list" where
  "filterCards rows = filter (\<lambda>row. \<not> list_ex isNoiseCell (Object_values row)) rows"

section \<open>More built-ins: indexing, \<^verbatim>\<open>||\<close>, \<^verbatim>\<open>split\<close>, \<^verbatim>\<open>sort\<close>\<close>

text \<open>\<^verbatim>\<open>xs[i]\<close>: reading past the end of an array gives \<^verbatim>\<open>undefined\<close>.\<close>

definition at_index :: "'a list \<Rightarrow> nat \<Rightarrow> 'a option" where
  "at_index xs i = (if i < length xs then Some (xs ! i) else None)"

text \<open>
  \<^verbatim>\<open>v || d\<close> for a string or \<^verbatim>\<open>undefined\<close> on the left: \<^verbatim>\<open>undefined\<close> and the empty
  string are falsy.
\<close>

definition orElse :: "string option \<Rightarrow> string \<Rightarrow> string" where
  "orElse v d = (case v of None \<Rightarrow> d | Some s \<Rightarrow> if s = [] then d else s)"

text \<open>
  \<^verbatim>\<open>s.split(sep)\<close> for a separator of one character: the segments between the
  occurrences of the separator, never an empty array.
\<close>

fun str_split :: "char \<Rightarrow> string \<Rightarrow> string list" where
  "str_split sep [] = [[]]"
| "str_split sep (c # cs) =
     (if c = sep then [] # str_split sep cs
      else (case str_split sep cs of
              [] \<Rightarrow> [[c]]
            | w # ws \<Rightarrow> (c # w) # ws))"

text \<open>The decimal digits of a natural number.\<close>

fun digits :: "nat \<Rightarrow> string" where
  "digits n =
     (if n < 10 then [char_of (48 + n)]
      else digits (n div 10) @ [char_of (48 + n mod 10)])"

declare digits.simps [simp del]

text \<open>
  \<^verbatim>\<open>xs.sort(cmp)\<close> is the engine's, not the repository's: ECMAScript asks for a stable sort
  that puts \<open>a\<close> before \<open>b\<close> when \<open>cmp a b < 0\<close> and after it when \<open>cmp a b > 0\<close>.
  It is modelled by stable insertion, elements entering from the right end of the array.
\<close>

fun insertBy :: "('a \<Rightarrow> 'a \<Rightarrow> int) \<Rightarrow> 'a \<Rightarrow> 'a list \<Rightarrow> 'a list" where
  "insertBy cmp x [] = [x]"
| "insertBy cmp x (y # ys) = (if cmp x y \<le> 0 then x # y # ys else y # insertBy cmp x ys)"

definition Array_sort :: "('a \<Rightarrow> 'a \<Rightarrow> int) \<Rightarrow> 'a list \<Rightarrow> 'a list" where
  "Array_sort cmp xs = foldr (insertBy cmp) xs []"

text \<open>
  \<^verbatim>\<open>s.localeCompare(t)\<close> is the browser's collation; the model takes it as a parameter.
  Two functions serve to evaluate examples: the comparison of strings by their
  character codes, and a collation that ignores case first and puts the lower-case
  letter first on a tie, as the default collation of the browsers does on letters
  (\<^verbatim>\<open>"a".localeCompare("B")\<close> is negative there).
\<close>

fun plainCompare :: "string \<Rightarrow> string \<Rightarrow> int" where
  "plainCompare [] [] = 0"
| "plainCompare [] (d # ds) = - 1"
| "plainCompare (c # cs) [] = 1"
| "plainCompare (c # cs) (d # ds) =
     (if c = d then plainCompare cs ds
      else if (of_char c :: nat) < of_char d then - 1 else 1)"

definition caseFirstCollate :: "string \<Rightarrow> string \<Rightarrow> int" where
  "caseFirstCollate s t =
     (let c = plainCompare (toLowerCase s) (toLowerCase t)
      in if c \<noteq> 0 then c else plainCompare t s)"

section \<open>The engine's part in the generic variant's sort\<close>

text \<open>
  The comparator of the generic variant calls four things of the JavaScript engine, which
  the model takes as parameters:
  \<^item> \<^verbatim>\<open>s.localeCompare(t)\<close>, the collation;
  \<^item> \<^verbatim>\<open>x - y\<close> on two numbers, the subtraction of the engine with its rounding;
  \<^item> \<^verbatim>\<open>String(x)\<close> for a number;
  \<^item> the members that every row object inherits from \<^verbatim>\<open>Object.prototype\<close>:
    \<open>inherited js k\<close> is \<open>Some s\<close> when \<^verbatim>\<open>Object.prototype\<close> has a member named \<open>k\<close>,
    and \<open>s\<close> is what \<^verbatim>\<open>String\<close> gives for that member. These members are functions
    (\<^verbatim>\<open>constructor\<close>, \<^verbatim>\<open>toString\<close>, ...) and one object (\<^verbatim>\<open>__proto__\<close>), never a string,
    a number or a boolean.
\<close>

record engine =
  localeCompare :: "string \<Rightarrow> string \<Rightarrow> int"
  subtract :: "int \<Rightarrow> int \<Rightarrow> int"
  numberString :: "int \<Rightarrow> string"
  inherited :: "string \<Rightarrow> string option"

text \<open>
  What \<^verbatim>\<open>row[k]\<close> gives: the row's own cell, else the member of that name inherited
  from \<^verbatim>\<open>Object.prototype\<close> (kept as its string representation), else \<^verbatim>\<open>undefined\<close>.
\<close>

datatype jsvalue = Own cell | Member string | Undefined

definition getProperty :: "engine \<Rightarrow> CSVRow \<Rightarrow> string \<Rightarrow> jsvalue" where
  "getProperty js row k =
     (case map_of row k of
        Some c \<Rightarrow> Own c
      | None \<Rightarrow> (case inherited js k of Some s \<Rightarrow> Member s | None \<Rightarrow> Undefined))"

text \<open>\<^verbatim>\<open>String(v)\<close>.\<close>

fun String_of :: "engine \<Rightarrow> jsvalue \<Rightarrow> string" where
  "String_of js Undefined = ''undefined''"
| "String_of js (Member s) = s"
| "String_of js (Own (VStr s)) = s"
| "String_of js (Own (VNum n)) = numberString js n"
| "String_of js (Own (VBool b)) = (if b then ''true'' else ''false'')"

text \<open>
  An engine to evaluate examples with: the collation that ignores case first; exact
  subtraction and decimal digits, which is what the engine computes on the integers of
  the examples (the subtraction is exact while the result is below 2^53 in magnitude, and
  a number below 10^21 is printed with all its digits); the members of
  \<^verbatim>\<open>Object.prototype\<close> with the strings V8 prints for them.
\<close>

definition sampleEngine :: engine where
  "sampleEngine =
     \<lparr>localeCompare = caseFirstCollate,
      subtract = (\<lambda>x y. x - y),
      numberString = (\<lambda>n. if n < 0 then CHR ''-'' # digits (nat (- n)) else digits (nat n)),
      inherited = (\<lambda>k.
        if k = ''__proto__'' then Some ''[object Object]''
        else if k = ''constructor'' then Some ''function Object() { [native code] }''
        else if k \<in> set [''hasOwnProperty'', ''isPrototypeOf'', ''propertyIsEnumerable'',
                          ''toLocaleString'', ''toString'', ''valueOf'', ''__defineGetter__'',
                          ''__defineSetter__'', ''__lookupGetter__'', ''__lookupSetter__'']
        then Some (''function '' @ k @ ''() { [native code] }'')
        else None)\<rparr>"

section \<open>Generic variant: state and upload (page.tsx, lines 17-42)\<close>

datatype sort_order = Asc | Desc

record state =
  csvData :: "CSVRow list"
  headers :: "string list"
  sortColumns :: "(string \<times> sort_order) list"
  sortedData :: "CSVRow list"
  error :: string

text \<open>The parser's result: the rows and the messages of the errors it reports.\<close>

record 'row ParseResult =
  data :: "'row list"
  errors :: "string list"

text \<open>
  What the parser does with the chosen file: there is no file, the parser calls the
  \<^verbatim>\<open>error\<close> callback, or it calls \<^verbatim>\<open>complete\<close> with its result.
\<close>

datatype 'row parse_event = NoFile | ParseFailed | Parsed "'row ParseResult"

datatype js_error = TypeError

text \<open>A handler returns, or throws with the state updates it made before.\<close>

datatype 's outcome = Done 's | Threw js_error 's

fun stateOf :: "'s outcome \<Rightarrow> 's" where
  "stateOf (Done st) = st"
| "stateOf (Threw e st) = st"

text \<open>
  \<^verbatim>\<open>
  complete: (results) => {
    const filteredData = results.data.filter(...);
    setCsvData(filteredData);
    setHeaders(Object.keys(filteredData[0]));
  }
  \<close>
  \<^verbatim>\<open>filteredData[0]\<close> is \<^verbatim>\<open>undefined\<close> for an empty array, and \<^verbatim>\<open>Object.keys(undefined)\<close>
  throws a TypeError.
\<close>

definition complete :: "state \<Rightarrow> CSVRow ParseResult \<Rightarrow> state outcome" where
  "complete st results =
     (let filteredData = filterRows (data results);
          st1 = st\<lparr>csvData := filteredData\<rparr>
      in case at_index filteredData 0 of
           None \<Rightarrow> Threw TypeError st1
         | Some row \<Rightarrow> Done (st1\<lparr>headers := Object_keys row\<rparr>))"

definition handleFileUpload :: "state \<Rightarrow> CSVRow parse_event \<Rightarrow> state outcome" where
  "handleFileUpload st ev =
     (case ev of
        NoFile \<Rightarrow> Done st
      | ParseFailed \<Rightarrow> Done (st\<lparr>error := ''Error parsing CSV file''\<rparr>)
      | Parsed results \<Rightarrow> complete st results)"

section \<open>Generic variant: sorting (page.tsx, lines 63-92)\<close>

text \<open>
  The value \<^verbatim>\<open>result\<close> of one round of the loop over \<^verbatim>\<open>sortColumns\<close>. The difference
  of the two booleans is a difference of the numbers 0 and 1, which is exact.
\<close>

definition keyResult :: "engine \<Rightarrow> string \<Rightarrow> sort_order \<Rightarrow> CSVRow \<Rightarrow> CSVRow \<Rightarrow> int" where
  "keyResult js column ord a b =
     (let aValue = getProperty js a column; bValue = getProperty js b column
      in case (aValue, bValue) of
           (Own (VStr s), Own (VStr t)) \<Rightarrow>
             (if ord = Asc then localeCompare js s t else localeCompare js t s)
         | (Own (VNum x), Own (VNum y)) \<Rightarrow>
             (if ord = Asc then subtract js x y else subtract js y x)
         | (Own (VBool p), Own (VBool q)) \<Rightarrow>
             (if ord = Asc then (if p then 1 else 0) - (if q then 1 else 0)
              else (if q then 1 else 0) - (if p then 1 else 0))
         | _ \<Rightarrow>
             (let aStr = String_of js aValue; bStr = String_of js bValue
              in if ord = Asc then localeCompare js aStr bStr else localeCompare js bStr aStr))"

text \<open>The comparator: the first round whose \<^verbatim>\<open>result\<close> is not 0 returns it.\<close>

fun compareRows :: "engine \<Rightarrow> (string \<times> sort_order) list \<Rightarrow> CSVRow \<Rightarrow> CSVRow \<Rightarrow> int" where
  "compareRows js [] a b = 0"
| "compareRows js ((column, ord) # rest) a b =
     (let result = keyResult js column ord a b
      in if result \<noteq> 0 then result else compareRows js rest a b)"

definition sortRows :: "engine \<Rightarrow> (string \<times> sort_order) list \<Rightarrow> CSVRow list \<Rightarrow> CSVRow list" where
  "sortRows js cols rows = Array_sort (compareRows js cols) rows"

definition handleSort :: "engine \<Rightarrow> state \<Rightarrow> state" where
  "handleSort js st =
     (if csvData st = [] then st
      else st\<lparr>sortedData := sortRows js (sortColumns st) (csvData st)\<rparr>)"

text \<open>
  \<^verbatim>\<open>downloadSortedCSV\<close> returns at once when \<^verbatim>\<open>sortedData\<close> is empty and serialises it
  with the library's \<^verbatim>\<open>unparse\<close> otherwise. Its button is rendered when \<^verbatim>\<open>csvData\<close> and
  \<^verbatim>\<open>sortedData\<close> both have a row (lines 126 and 261); the error banner when \<^verbatim>\<open>error\<close> is
  not empty (line 272).
\<close>

definition downloadSortedCSV :: "(CSVRow list \<Rightarrow> string) \<Rightarrow> state \<Rightarrow> string option" where
  "downloadSortedCSV unparse st =
     (if sortedData st = [] then None else Some (unparse (sortedData st)))"

definition downloadOffered :: "state \<Rightarrow> bool" where
  "downloadOffered st = (csvData st \<noteq> [] \<and> sortedData st \<noteq> [])"

definition datasetShown :: "state \<Rightarrow> bool" where
  "datasetShown st = (csvData st \<noteq> [])"

definition errorShown :: "state \<Rightarrow> bool" where
  "errorShown st = (error st \<noteq> [])"

section \<open>Card variant: normalisation and sorting (page.tsx, lines 336-371)\<close>

text \<open>
  The target schema. \<^verbatim>\<open>number\<close> is \<^verbatim>\<open>undefined\<close> when the file has no column
  \<^verbatim>\<open>Number\<close>; the fields \<^verbatim>\<open>set\<close> and \<^verbatim>\<open>notes\<close> are
  named \<open>set_col\<close> and \<open>notes_col\<close> here.
\<close>

record CardRow =
  numbershort :: string
  number :: "string option"
  product_name :: string
  condition :: string
  qty :: string
  rarity :: string
  set_col :: string
  notes_col :: string

text \<open>
  \<^verbatim>\<open>
  const number = row['Number'];
  const numbershort = number?.split('-')[1] || '';
  const quantity = row['Quantity'] || '1';
  \<close>
  The optional chain gives \<^verbatim>\<open>undefined\<close> for a missing \<^verbatim>\<open>number\<close>, and so does the
  index 1 of an array with one element.
\<close>

definition normalizeRow :: "RawRow \<Rightarrow> CardRow" where
  "normalizeRow row =
     (let number = map_of row ''Number'';
          numbershort =
            orElse (Option.bind number (\<lambda>n. at_index (str_split CHR ''-'' n) 1)) '''';
          quantity = orElse (map_of row ''Quantity'') ''1''
      in \<lparr>numbershort = numbershort,
          number = number,
          product_name = orElse (map_of row ''Product Name'') '''',
          condition = orElse (map_of row ''Condition'') '''',
          qty = quantity,
          rarity = orElse (map_of row ''Rarity'') '''',
          set_col = orElse (map_of row ''Set'') '''',
          notes_col = ''''\<rparr>)"

definition cardCompare :: "(string \<Rightarrow> string \<Rightarrow> int) \<Rightarrow> CardRow \<Rightarrow> CardRow \<Rightarrow> int" where
  "cardCompare lc a b =
     (if set_col a \<noteq> set_col b then lc (set_col a) (set_col b)
      else if rarity a \<noteq> rarity b then lc (rarity a) (rarity b)
      else if condition a \<noteq> condition b then lc (condition a) (condition b)
      else lc (product_name a) (product_name b))"

text \<open>\<^verbatim>\<open>transformedData\<close>: filter, map, sort.\<close>

definition transformData :: "(string \<Rightarrow> string \<Rightarrow> int) \<Rightarrow> RawRow list \<Rightarrow> CardRow list" where
  "transformData lc rows = Array_sort (cardCompare lc) (map normalizeRow (filterCards rows))"

section \<open>Card variant: state and upload (page.tsx, lines 298-378)\<close>

record card_state =
  csvData_c :: "CardRow list"
  error_c :: string

text \<open>
  The promise around the parser rejects when the parser calls \<^verbatim>\<open>error\<close>; the
  \<^verbatim>\<open>catch\<close> block then sets a fixed message. A result with errors sets the first
  error's message and returns.
\<close>

definition handleFileUpload_c ::
  "(string \<Rightarrow> string \<Rightarrow> int) \<Rightarrow> card_state \<Rightarrow> RawRow parse_event \<Rightarrow> card_state" where
  "handleFileUpload_c lc st ev =
     (case ev of
        NoFile \<Rightarrow> st
      | ParseFailed \<Rightarrow> st\<lparr>error_c := ''Error processing CSV file''\<rparr>
      | Parsed results \<Rightarrow>
          (case errors results of
             message # _ \<Rightarrow> st\<lparr>error_c := message\<rparr>
           | [] \<Rightarrow> st\<lparr>error_c := '''', csvData_c := transformData lc (data results)\<rparr>))"

text \<open>
  The table and the download button are rendered when \<^verbatim>\<open>csvData\<close> has a row (lines 404
  and 419), the error banner when \<^verbatim>\<open>error\<close> is not empty (line 413).
\<close>

definition datasetShown_c :: "card_state \<Rightarrow> bool" where
  "datasetShown_c st = (csvData_c st \<noteq> [])"

definition errorShown_c :: "card_state \<Rightarrow> bool" where
  "errorShown_c st = (error_c st \<noteq> [])"

section \<open>The specification's wording, for comparison with the code\<close>





text \<open>
  The card variant's sort as the specification words it: the keys set, rarity,
  condition and product name, ascending, each compared as plain strings.
\<close>

definition spec_plainCardCompare :: "CardRow \<Rightarrow> CardRow \<Rightarrow> int" where
  "spec_plainCardCompare a b =
     (let c1 = plainCompare (set_col a) (set_col b);
          c2 = plainCompare (rarity a) (rarity b);
          c3 = plainCompare (condition a) (condition b);
          c4 = plainCompare (product_name a) (product_name b)
      in if c1 \<noteq> 0 then c1 else if c2 \<noteq> 0 then c2 else if c3 \<noteq> 0 then c3 else c4)"

definition spec_plainSort :: "CardRow list \<Rightarrow> CardRow list" where
  "spec_plainSort rows = Array_sort spec_plainCardCompare rows"

text \<open>
  Ascending lexicographic order of two records along a sequence of keys, each key
  compared by \<open>lc\<close>: \<open>a\<close> may stand before \<open>b\<close>.
\<close>

fun spec_keysLe ::
  "(string \<Rightarrow> string \<Rightarrow> int) \<Rightarrow> (CardRow \<Rightarrow> string) list \<Rightarrow> CardRow \<Rightarrow> CardRow \<Rightarrow> bool" where
  "spec_keysLe lc [] a b = True"
| "spec_keysLe lc (key # keys) a b =
     (lc (key a) (key b) < 0 \<or> (key a = key b \<and> spec_keysLe lc keys a b))"

text \<open>
  What ECMAScript asks of a collation, a consistent comparison: swapping the operands
  swaps the sign, and "before" is transitive. Two different strings may tie.
\<close>

definition consistentCollation :: "(string \<Rightarrow> string \<Rightarrow> int) \<Rightarrow> bool" where
  "consistentCollation lc =
     ((\<forall>s t. lc s t < 0 \<longleftrightarrow> 0 < lc t s)
      \<and> (\<forall>s t u. lc s t < 0 \<and> lc t u < 0 \<longrightarrow> lc s u < 0))"

text \<open>
  The collation ties no two different key strings of the records \<open>xs\<close>: on each of the
  four keys, two records that tie have the same string.
\<close>

definition tiesOnlyEqual :: "(string \<Rightarrow> string \<Rightarrow> int) \<Rightarrow> CardRow list \<Rightarrow> bool" where
  "tiesOnlyEqual lc xs =
     (\<forall>a \<in> set xs. \<forall>b \<in> set xs.
        (lc (set_col a) (set_col b) = 0 \<longrightarrow> set_col a = set_col b)
        \<and> (lc (rarity a) (rarity b) = 0 \<longrightarrow> rarity a = rarity b)
        \<and> (lc (condition a) (condition b) = 0 \<longrightarrow> condition a = condition b)
        \<and> (lc (product_name a) (product_name b) = 0 \<longrightarrow> product_name a = product_name b))"

text \<open>A row of a pull sheet with six columns, to write examples with.\<close>

definition sheetRow :: "string \<Rightarrow> string \<Rightarrow> string \<Rightarrow> string \<Rightarrow> string \<Rightarrow> string \<Rightarrow> RawRow" where
  "sheetRow name st num rar cond quantity =
     [(''Product Name'', name), (''Set'', st), (''Number'', num), (''Rarity'', rar),
      (''Condition'', cond), (''Quantity'', quantity)]"

section \<open>Lemmas on the built-ins\<close>

lemma includes_iff: "str_includes s t \<longleftrightarrow> (\<exists>p q. s = p @ t @ q)"
proof (induction s)
  case Nil
  then show ?case by auto
next
  case (Cons c cs)
  show ?case
  proof
    assume "str_includes (c # cs) t"
    then consider "prefix t (c # cs)" | "str_includes cs t" by auto
    then show "\<exists>p q. c # cs = p @ t @ q"
    proof cases
      case 1
      then obtain q where "c # cs = t @ q" by (auto simp: prefix_def)
      then have "c # cs = [] @ t @ q" by simp
      then show ?thesis by blast
    next
      case 2
      with Cons.IH obtain p q where "cs = p @ t @ q" by blast
      then have "c # cs = (c # p) @ t @ q" by simp
      then show ?thesis by blast
    qed
  next
    assume "\<exists>p q. c # cs = p @ t @ q"
    then obtain p q where pq: "c # cs = p @ t @ q" by blast
    show "str_includes (c # cs) t"
    proof (cases p)
      case Nil
      with pq have "prefix t (c # cs)" by (simp add: prefix_def)
      then show ?thesis by simp
    next
      case (Cons d ds)
      with pq have "cs = ds @ t @ q" by simp
      with Cons.IH have "str_includes cs t" by blast
      then show ?thesis by simp
    qed
  qed
qed

text \<open>The first segment is the text before the first separator; the rest splits the text after it.\<close>

lemma str_split_shape:
  "str_split sep s =
     takeWhile (\<lambda>c. c \<noteq> sep) s #
       (case dropWhile (\<lambda>c. c \<noteq> sep) s of [] \<Rightarrow> [] | _ # rest \<Rightarrow> str_split sep rest)"
  by (induction s) (auto split: list.splits)

lemma str_split_second:
  "at_index (str_split sep s) 1 =
     (if sep \<in> set s
      then Some (takeWhile (\<lambda>c. c \<noteq> sep) (drop 1 (dropWhile (\<lambda>c. c \<noteq> sep) s)))
      else None)"
proof (cases "dropWhile (\<lambda>c. c \<noteq> sep) s")
  case Nil
  then have "sep \<notin> set s" by (auto simp: dropWhile_eq_Nil_conv)
  moreover have "str_split sep s = [takeWhile (\<lambda>c. c \<noteq> sep) s]"
    by (subst str_split_shape) (simp only: Nil list.case)
  ultimately show ?thesis by (simp add: at_index_def)
next
  case (Cons d rest)
  have "sep \<in> set s"
  proof (rule ccontr)
    assume "sep \<notin> set s"
    then have "dropWhile (\<lambda>c. c \<noteq> sep) s = []" by (auto simp: dropWhile_eq_Nil_conv)
    with Cons show False by simp
  qed
  moreover have "str_split sep s = takeWhile (\<lambda>c. c \<noteq> sep) s # str_split sep rest"
    by (subst str_split_shape) (simp only: Cons list.case)
  moreover obtain ws where "str_split sep rest = takeWhile (\<lambda>c. c \<noteq> sep) rest # ws"
    using str_split_shape [of sep rest] by blast
  ultimately show ?thesis by (simp add: at_index_def Cons)
qed

lemma mset_insertBy: "mset (insertBy cmp x xs) = add_mset x (mset xs)"
  by (induction xs) simp_all

lemma mset_Array_sort: "mset (Array_sort cmp xs) = mset xs"
  unfolding Array_sort_def by (induction xs) (simp_all add: mset_insertBy)

lemma set_insertBy: "set (insertBy cmp x ys) = insert x (set ys)"
  by (induction ys) auto

lemma set_Array_sort: "set (Array_sort cmp xs) = set xs"
  using mset_Array_sort [of cmp xs] by (metis set_mset_mset)

text \<open>
  With a comparator that agrees, on the elements of the array, with a transitive and
  total relation \<open>le\<close>, the sorted array is ordered by \<open>le\<close>.
\<close>

lemma sorted_insertBy:
  assumes trans: "\<And>x y z. x \<in> A \<Longrightarrow> y \<in> A \<Longrightarrow> z \<in> A \<Longrightarrow> le x y \<Longrightarrow> le y z \<Longrightarrow> le x z"
    and total: "\<And>x y. x \<in> A \<Longrightarrow> y \<in> A \<Longrightarrow> \<not> cmp x y \<le> 0 \<Longrightarrow> le y x"
    and le: "\<And>x y. x \<in> A \<Longrightarrow> y \<in> A \<Longrightarrow> cmp x y \<le> 0 \<Longrightarrow> le x y"
    and x: "x \<in> A"
    and ys: "set ys \<subseteq> A" "sorted_wrt le ys"
  shows "sorted_wrt le (insertBy cmp x ys)"
  using ys
proof (induction ys)
  case Nil
  show ?case by simp
next
  case (Cons y ys)
  from Cons.prems have y: "y \<in> A" and sub: "set ys \<subseteq> A" by auto
  show ?case
  proof (cases "cmp x y \<le> 0")
    case True
    then have xy: "le x y" using x y by (rule le [rotated 2])
    have "le x z" if "z \<in> set ys" for z
    proof -
      from that Cons.prems have "le y z" by auto
      moreover from that sub have "z \<in> A" by auto
      ultimately show ?thesis using xy x y by (blast intro: trans)
    qed
    with xy True Cons.prems show ?thesis by auto
  next
    case False
    then have "le y x" using x y by (rule total [rotated 2])
    moreover have "sorted_wrt le (insertBy cmp x ys)"
      using Cons.IH sub Cons.prems by simp
    ultimately show ?thesis using False Cons.prems by (auto simp: set_insertBy)
  qed
qed

lemma sorted_Array_sort:
  assumes "\<And>x y z. x \<in> A \<Longrightarrow> y \<in> A \<Longrightarrow> z \<in> A \<Longrightarrow> le x y \<Longrightarrow> le y z \<Longrightarrow> le x z"
    and "\<And>x y. x \<in> A \<Longrightarrow> y \<in> A \<Longrightarrow> \<not> cmp x y \<le> 0 \<Longrightarrow> le y x"
    and "\<And>x y. x \<in> A \<Longrightarrow> y \<in> A \<Longrightarrow> cmp x y \<le> 0 \<Longrightarrow> le x y"
    and "set xs \<subseteq> A"
  shows "sorted_wrt le (Array_sort cmp xs)"
  using assms(4)
proof (induction xs)
  case Nil
  show ?case by (simp add: Array_sort_def)
next
  case (Cons x xs)
  then have x: "x \<in> A" and sub: "set xs \<subseteq> A" by auto
  have step: "Array_sort cmp (x # xs) = insertBy cmp x (Array_sort cmp xs)"
    by (simp add: Array_sort_def)
  show ?case
    unfolding step
  proof (rule sorted_insertBy [where A = A and le = le])
    show "x \<in> A" by (rule x)
    show "set (Array_sort cmp xs) \<subseteq> A" using sub by (simp add: set_Array_sort)
    show "sorted_wrt le (Array_sort cmp xs)" using Cons.IH sub by simp
  qed (fact assms(1-3))+
qed

lemma insertBy_tie: "\<forall>y \<in> set ys. cmp x y \<le> 0 \<Longrightarrow> insertBy cmp x ys = x # ys"
  by (cases ys) simp_all

lemma Array_sort_ties: "(\<And>x y. cmp x y \<le> 0) \<Longrightarrow> Array_sort cmp xs = xs"
  unfolding Array_sort_def by (induction xs) (simp_all add: insertBy_tie)

section \<open>Lemmas on collations\<close>

lemma plainCompare_zero: "plainCompare s t = 0 \<Longrightarrow> s = t"
  by (induction s t rule: plainCompare.induct) (auto split: if_splits)

lemma plainCompare_refl: "plainCompare s s = 0"
  by (induction s) simp_all

lemma plainCompare_swap: "plainCompare t s = - plainCompare s t"
proof (induction s t rule: plainCompare.induct)
  case (4 c cs d ds)
  show ?case
  proof (cases "c = d")
    case True
    with 4 show ?thesis by simp
  next
    case False
    then have "(of_char c :: nat) \<noteq> of_char d" by simp
    then show ?thesis using False by auto
  qed
qed simp_all

lemma plainCompare_trans:
  "plainCompare s t < 0 \<Longrightarrow> plainCompare t u < 0 \<Longrightarrow> plainCompare s u < 0"
proof (induction s t arbitrary: u rule: plainCompare.induct)
  case 1
  then show ?case by simp
next
  case (2 d ds)
  then show ?case by (cases u) (auto split: if_splits)
next
  case (3 c cs)
  then show ?case by simp
next
  case (4 c cs d ds)
  from 4(3) obtain e es where u: "u = e # es" by (cases u) auto
  show ?case
  proof (cases "c = d")
    case True
    with 4 u show ?thesis by (auto split: if_splits)
  next
    case False
    with 4(2) have cd: "(of_char c :: nat) < of_char d" by (auto split: if_splits)
    show ?thesis
    proof (cases "d = e")
      case True
      with False cd u show ?thesis by auto
    next
      case de: False
      with 4(3) u have "(of_char d :: nat) < of_char e" by (auto split: if_splits)
      with cd have ce: "(of_char c :: nat) < of_char e" by simp
      then have "c \<noteq> e" by auto
      with ce u show ?thesis by simp
    qed
  qed
qed

text \<open>The collation that ignores case first is a consistent comparison without ties.\<close>

lemma caseFirst_less:
  "caseFirstCollate s t < 0 \<longleftrightarrow>
     plainCompare (toLowerCase s) (toLowerCase t) < 0
     \<or> (toLowerCase s = toLowerCase t \<and> plainCompare t s < 0)"
proof (cases "plainCompare (toLowerCase s) (toLowerCase t) = 0")
  case True
  then have "toLowerCase s = toLowerCase t" by (rule plainCompare_zero)
  with True show ?thesis by (simp add: caseFirstCollate_def)
next
  case False
  then have "toLowerCase s \<noteq> toLowerCase t" using plainCompare_refl by metis
  with False show ?thesis by (simp add: caseFirstCollate_def)
qed

lemma caseFirst_swap: "caseFirstCollate t s = - caseFirstCollate s t"
proof -
  have l: "plainCompare (toLowerCase t) (toLowerCase s)
           = - plainCompare (toLowerCase s) (toLowerCase t)"
    by (rule plainCompare_swap)
  have p: "plainCompare s t = - plainCompare t s" by (rule plainCompare_swap)
  show ?thesis
  proof (cases "plainCompare (toLowerCase s) (toLowerCase t) = 0")
    case True
    with l p show ?thesis by (simp add: caseFirstCollate_def)
  next
    case False
    with l show ?thesis by (simp add: caseFirstCollate_def)
  qed
qed

lemma caseFirst_zero: "caseFirstCollate s t = 0 \<Longrightarrow> s = t"
proof -
  assume z: "caseFirstCollate s t = 0"
  show "s = t"
  proof (cases "plainCompare (toLowerCase s) (toLowerCase t) = 0")
    case True
    with z have "plainCompare t s = 0" by (simp add: caseFirstCollate_def)
    then show ?thesis using plainCompare_zero by metis
  next
    case False
    with z show ?thesis by (simp add: caseFirstCollate_def)
  qed
qed

lemma caseFirst_trans:
  assumes "caseFirstCollate s t < 0" and "caseFirstCollate t u < 0"
  shows "caseFirstCollate s u < 0"
proof -
  from assms(1) consider "plainCompare (toLowerCase s) (toLowerCase t) < 0"
    | "toLowerCase s = toLowerCase t" "plainCompare t s < 0"
    unfolding caseFirst_less by blast
  then show ?thesis
  proof cases
    case 1
    from assms(2) consider "plainCompare (toLowerCase t) (toLowerCase u) < 0"
      | "toLowerCase t = toLowerCase u"
      unfolding caseFirst_less by blast
    then have "plainCompare (toLowerCase s) (toLowerCase u) < 0"
    proof cases
      case 1
      with \<open>plainCompare (toLowerCase s) (toLowerCase t) < 0\<close> show ?thesis
        by (rule plainCompare_trans)
    next
      case 2
      with \<open>plainCompare (toLowerCase s) (toLowerCase t) < 0\<close> show ?thesis by simp
    qed
    then show ?thesis unfolding caseFirst_less by blast
  next
    case 2
    from assms(2) consider "plainCompare (toLowerCase t) (toLowerCase u) < 0"
      | "toLowerCase t = toLowerCase u" "plainCompare u t < 0"
      unfolding caseFirst_less by blast
    then show ?thesis
    proof cases
      case 1
      with 2(1) show ?thesis unfolding caseFirst_less by simp
    next
      case b: 2
      from b(2) 2(2) have "plainCompare u s < 0" by (rule plainCompare_trans)
      with 2(1) b(1) show ?thesis unfolding caseFirst_less by simp
    qed
  qed
qed

lemma caseFirst_consistent: "consistentCollation caseFirstCollate"
  unfolding consistentCollation_def
proof (intro conjI allI impI)
  fix s t u
  show "(caseFirstCollate s t < 0) = (0 < caseFirstCollate t s)"
    using caseFirst_swap [of t s] by linarith
  show "caseFirstCollate s t < 0 \<and> caseFirstCollate t u < 0 \<Longrightarrow> caseFirstCollate s u < 0"
    using caseFirst_trans by blast
qed

lemma caseFirst_ties: "tiesOnlyEqual caseFirstCollate xs"
  unfolding tiesOnlyEqual_def using caseFirst_zero by blast

lemma consistent_swap: "consistentCollation lc \<Longrightarrow> lc s t < 0 \<longleftrightarrow> 0 < lc t s"
  unfolding consistentCollation_def by blast

lemma consistent_trans:
  "consistentCollation lc \<Longrightarrow> lc s t < 0 \<Longrightarrow> lc t u < 0 \<Longrightarrow> lc s u < 0"
  unfolding consistentCollation_def by blast

lemma consistent_refl:
  assumes "consistentCollation lc"
  shows "lc s s = 0"
proof -
  have "lc s s < 0 \<longleftrightarrow> 0 < lc s s" by (rule consistent_swap [OF assms])
  then show ?thesis by linarith
qed

section \<open>Lemmas on the two variants\<close>

lemma list_ex_noise_generic:
  "list_ex isNoiseValue (Object_values row) \<longleftrightarrow>
     (\<exists>k s p q. (k, VStr s) \<in> set row \<and> s = p @ ''Orders Contained in Pull Sheet'' @ q)"
proof
  assume "list_ex isNoiseValue (Object_values row)"
  then obtain k v where kv: "(k, v) \<in> set row" and n: "isNoiseValue v"
    by (auto simp: list_ex_iff Object_values_def)
  from n obtain s where v: "v = VStr s" and "str_includes s ''Orders Contained in Pull Sheet''"
    by (cases v) auto
  then obtain p q where "s = p @ ''Orders Contained in Pull Sheet'' @ q"
    unfolding includes_iff by blast
  with kv v show "\<exists>k s p q. (k, VStr s) \<in> set row \<and> s = p @ ''Orders Contained in Pull Sheet'' @ q"
    by blast
next
  assume "\<exists>k s p q. (k, VStr s) \<in> set row \<and> s = p @ ''Orders Contained in Pull Sheet'' @ q"
  then obtain k s p q where kv: "(k, VStr s) \<in> set row"
    and s: "s = p @ ''Orders Contained in Pull Sheet'' @ q" by blast
  from s have "str_includes s ''Orders Contained in Pull Sheet''"
    unfolding includes_iff by blast
  then have "isNoiseValue (VStr s)" by simp
  moreover from kv have "VStr s \<in> set (Object_values row)"
    by (force simp: Object_values_def)
  ultimately show "list_ex isNoiseValue (Object_values row)"
    unfolding list_ex_iff by blast
qed

lemma list_ex_noise_cards:
  "list_ex isNoiseCell (Object_values row) \<longleftrightarrow>
     (\<exists>k v p q. (k, v) \<in> set row \<and>
        (toLowerCase v = p @ ''orders contained in pull sheet'' @ q
         \<or> toLowerCase v = p @ ''pull sheet'' @ q))"
proof
  assume "list_ex isNoiseCell (Object_values row)"
  then obtain k v where kv: "(k, v) \<in> set row" and n: "isNoiseCell v"
    by (auto simp: list_ex_iff Object_values_def)
  from n have "(\<exists>p q. toLowerCase v = p @ ''orders contained in pull sheet'' @ q)
       \<or> (\<exists>p q. toLowerCase v = p @ ''pull sheet'' @ q)"
    unfolding isNoiseCell_def Let_def includes_iff .
  with kv show "\<exists>k v p q. (k, v) \<in> set row \<and>
        (toLowerCase v = p @ ''orders contained in pull sheet'' @ q
         \<or> toLowerCase v = p @ ''pull sheet'' @ q)"
    by blast
next
  assume "\<exists>k v p q. (k, v) \<in> set row \<and>
        (toLowerCase v = p @ ''orders contained in pull sheet'' @ q
         \<or> toLowerCase v = p @ ''pull sheet'' @ q)"
  then obtain k v p q where kv: "(k, v) \<in> set row"
    and s: "toLowerCase v = p @ ''orders contained in pull sheet'' @ q
         \<or> toLowerCase v = p @ ''pull sheet'' @ q" by blast
  from s have "isNoiseCell v"
    unfolding isNoiseCell_def Let_def includes_iff by blast
  moreover from kv have "v \<in> set (Object_values row)"
    by (force simp: Object_values_def)
  ultimately show "list_ex isNoiseCell (Object_values row)"
    unfolding list_ex_iff by blast
qed











lemma numbershort_normalizeRow:
  "numbershort (normalizeRow row) =
     orElse (Option.bind (map_of row ''Number'') (\<lambda>n. at_index (str_split CHR ''-'' n) 1)) []"
  by (simp add: normalizeRow_def Let_def)

lemma qty_normalizeRow: "qty (normalizeRow row) = orElse (map_of row ''Quantity'') ''1''"
  by (simp add: normalizeRow_def Let_def)

lemma no_tie:
  assumes "tiesOnlyEqual lc xs" and "a \<in> set xs" and "b \<in> set xs"
  shows "lc (set_col a) (set_col b) = 0 \<Longrightarrow> set_col a = set_col b"
    and "lc (rarity a) (rarity b) = 0 \<Longrightarrow> rarity a = rarity b"
    and "lc (condition a) (condition b) = 0 \<Longrightarrow> condition a = condition b"
    and "lc (product_name a) (product_name b) = 0 \<Longrightarrow> product_name a = product_name b"
  using assms unfolding tiesOnlyEqual_def by blast+

lemma no_tie_keys:
  assumes "tiesOnlyEqual lc xs" and "a \<in> set xs" and "b \<in> set xs"
    and "key \<in> set [set_col, rarity, condition, product_name]"
  shows "lc (key a) (key b) = 0 \<Longrightarrow> key a = key b"
  using assms(4) no_tie [OF assms(1-3)] by auto

lemma cardCompare_keysLe:
  assumes c: "consistentCollation lc" and t: "tiesOnlyEqual lc xs"
    and a: "a \<in> set xs" and b: "b \<in> set xs"
  shows "cardCompare lc a b \<le> 0 \<longleftrightarrow>
         spec_keysLe lc [set_col, rarity, condition, product_name] a b"
proof -
  note nt = no_tie [OF t a b]
  have irr: "\<not> lc s s < 0" for s
    using consistent_refl [OF c, of s] by simp
  have s1: "lc (set_col a) (set_col b) \<le> 0 \<longleftrightarrow> lc (set_col a) (set_col b) < 0"
    if "set_col a \<noteq> set_col b"
    using nt(1) that by fastforce
  have s2: "lc (rarity a) (rarity b) \<le> 0 \<longleftrightarrow> lc (rarity a) (rarity b) < 0"
    if "rarity a \<noteq> rarity b"
    using nt(2) that by fastforce
  have s3: "lc (condition a) (condition b) \<le> 0 \<longleftrightarrow> lc (condition a) (condition b) < 0"
    if "condition a \<noteq> condition b"
    using nt(3) that by fastforce
  have s4: "lc (product_name a) (product_name b) \<le> 0
            \<longleftrightarrow> lc (product_name a) (product_name b) < 0 \<or> product_name a = product_name b"
    using nt(4) consistent_refl [OF c, of "product_name a"]
    by (cases "product_name a = product_name b") fastforce+
  show ?thesis
  proof (cases "set_col a = set_col b")
    case False
    then show ?thesis by (simp add: cardCompare_def s1)
  next
    case s: True
    show ?thesis
    proof (cases "rarity a = rarity b")
      case False
      then show ?thesis by (simp add: cardCompare_def s2 s irr)
    next
      case r: True
      show ?thesis
      proof (cases "condition a = condition b")
        case False
        then show ?thesis by (simp add: cardCompare_def s3 s r irr)
      next
        case True
        then show ?thesis by (simp add: cardCompare_def s r irr s4)
      qed
    qed
  qed
qed

lemma keysLe_trans:
  assumes "consistentCollation lc"
  shows "spec_keysLe lc keys a b \<Longrightarrow> spec_keysLe lc keys b c \<Longrightarrow> spec_keysLe lc keys a c"
proof (induction keys)
  case Nil
  show ?case by simp
next
  case (Cons key keys)
  from Cons.prems(1) consider "lc (key a) (key b) < 0"
    | "key a = key b" "spec_keysLe lc keys a b" by auto
  then show ?case
  proof cases
    case 1
    from Cons.prems(2) consider "lc (key b) (key c) < 0" | "key b = key c" by auto
    then have "lc (key a) (key c) < 0"
    proof cases
      case 1
      with \<open>lc (key a) (key b) < 0\<close> show ?thesis by (rule consistent_trans [OF assms])
    next
      case 2
      with \<open>lc (key a) (key b) < 0\<close> show ?thesis by simp
    qed
    then show ?thesis by simp
  next
    case 2
    from Cons.prems(2) consider "lc (key b) (key c) < 0"
      | "key b = key c" "spec_keysLe lc keys b c" by auto
    then show ?thesis
    proof cases
      case 1
      with 2 show ?thesis by simp
    next
      case 2
      with \<open>key a = key b\<close> \<open>spec_keysLe lc keys a b\<close> Cons.IH show ?thesis by simp
    qed
  qed
qed

lemma keysLe_total:
  assumes c: "consistentCollation lc"
    and nt: "\<And>key. key \<in> set keys \<Longrightarrow> lc (key a) (key b) = 0 \<Longrightarrow> key a = key b"
  shows "\<not> spec_keysLe lc keys a b \<Longrightarrow> spec_keysLe lc keys b a"
  using nt
proof (induction keys)
  case Nil
  then show ?case by simp
next
  case (Cons key keys)
  show ?case
  proof (cases "key a = key b")
    case True
    with Cons show ?thesis by simp
  next
    case False
    then have "lc (key a) (key b) \<noteq> 0" using Cons.prems(2) [of key] by auto
    then have "lc (key a) (key b) < 0 \<or> 0 < lc (key a) (key b)" by linarith
    then have "lc (key a) (key b) < 0 \<or> lc (key b) (key a) < 0"
      using consistent_swap [OF c, of "key b" "key a"] by blast
    with Cons.prems(1) show ?thesis by auto
  qed
qed

lemma sorted_cards:
  assumes c: "consistentCollation lc" and t: "tiesOnlyEqual lc xs"
  shows "sorted_wrt (spec_keysLe lc [set_col, rarity, condition, product_name])
           (Array_sort (cardCompare lc) xs)"
proof (rule sorted_Array_sort [where A = "set xs"])
  let ?le = "spec_keysLe lc [set_col, rarity, condition, product_name]"
  fix x y z :: CardRow
  show "?le x y \<Longrightarrow> ?le y z \<Longrightarrow> ?le x z" by (rule keysLe_trans [OF c])
  show "\<not> cardCompare lc x y \<le> 0 \<Longrightarrow> ?le y x" if x: "x \<in> set xs" and y: "y \<in> set xs"
    unfolding cardCompare_keysLe [OF c t x y]
    using no_tie_keys [OF t x y] by (rule keysLe_total [OF c])
  show "cardCompare lc x y \<le> 0 \<Longrightarrow> ?le x y" if x: "x \<in> set xs" and y: "y \<in> set xs"
    unfolding cardCompare_keysLe [OF c t x y] .
qed simp

section \<open>The claims\<close>




text \<open>
  C2, as the code has it. \<open>numbershort\<close> is the second segment of the raw Number value
  split on \<^verbatim>\<open>-\<close>, that is the text between the first \<^verbatim>\<open>-\<close> and the next one (or the
  end of the value), and the empty string when Number is absent or has no \<^verbatim>\<open>-\<close>; the
  row with Number \<^verbatim>\<open>LOB-001-EN\<close> normalizes to \<open>numbershort\<close> \<^verbatim>\<open>001\<close>.
\<close>

theorem numbershort_second_segment:
  "numbershort (normalizeRow row) =
     (case map_of row ''Number'' of
        None \<Rightarrow> []
      | Some n \<Rightarrow> takeWhile (\<lambda>c. c \<noteq> CHR ''-'') (drop 1 (dropWhile (\<lambda>c. c \<noteq> CHR ''-'') n)))
   \<and> numbershort (normalizeRow
        [(''Number'', ''LOB-001-EN''), (''Quantity'', ''2''), (''Rarity'', ''Common'')]) = ''001''"
proof -
  have none: "takeWhile (\<lambda>c. c \<noteq> CHR ''-'') (drop 1 (dropWhile (\<lambda>c. c \<noteq> CHR ''-'') n)) = []"
    if "CHR ''-'' \<notin> set n" for n
  proof -
    from that have d: "dropWhile (\<lambda>c. c \<noteq> CHR ''-'') n = []"
      by (auto simp: dropWhile_eq_Nil_conv)
    show ?thesis unfolding d by simp
  qed
  have "numbershort (normalizeRow row) =
     (case map_of row ''Number'' of
        None \<Rightarrow> []
      | Some n \<Rightarrow> takeWhile (\<lambda>c. c \<noteq> CHR ''-'') (drop 1 (dropWhile (\<lambda>c. c \<noteq> CHR ''-'') n)))"
  proof (cases "map_of row ''Number''")
    case None
    then show ?thesis by (simp add: numbershort_normalizeRow orElse_def)
  next
    case (Some n)
    then show ?thesis
      by (cases "CHR ''-'' \<in> set n")
         (simp_all add: numbershort_normalizeRow orElse_def str_split_second none del: One_nat_def)
  qed
  moreover have "numbershort (normalizeRow
        [(''Number'', ''LOB-001-EN''), (''Quantity'', ''2''), (''Rarity'', ''Common'')]) = ''001''"
    by (simp add: numbershort_normalizeRow orElse_def at_index_def)
  ultimately show ?thesis by blast
qed

text \<open>
  C2 as stated fails: the row with Number \<^verbatim>\<open>LOB-001-EN\<close> does not normalize to the
  \<open>numbershort\<close> \<^verbatim>\<open>001-EN\<close>, the whole text after the first \<^verbatim>\<open>-\<close>.
\<close>

theorem numbershort_counterexample:
  "numbershort (normalizeRow
     [(''Number'', ''LOB-001-EN''), (''Quantity'', ''2''), (''Rarity'', ''Common'')]) \<noteq> ''001-EN''"
  by (simp add: numbershort_normalizeRow orElse_def at_index_def)

text \<open>
  C3, as the code has it. The card variant sorts with a comparator over the fixed key
  sequence set, rarity, condition, product name, all ascending, each key compared by
  \<^verbatim>\<open>localeCompare\<close>, the locale-aware comparison: the first of set, rarity and condition
  on which two records are not the same string decides, by the collation of the two
  strings, and product name decides when they agree on all three. The sorted array holds
  the same records. When the collation is a consistent comparison and ties no two
  different key strings of the records, the sorted array is in ascending lexicographic
  order of the four keys under the collation.
\<close>

theorem cards_sorted_by_keys:
  "cardCompare lc a b =
     (case find (\<lambda>key. key a \<noteq> key b) [set_col, rarity, condition] of
        Some key \<Rightarrow> lc (key a) (key b)
      | None \<Rightarrow> lc (product_name a) (product_name b))
   \<and> mset (transformData lc rows) = mset (map normalizeRow (filterCards rows))
   \<and> (consistentCollation lc \<and> tiesOnlyEqual lc (map normalizeRow (filterCards rows)) \<longrightarrow>
        sorted_wrt (spec_keysLe lc [set_col, rarity, condition, product_name])
          (transformData lc rows))"
proof (intro conjI impI)
  show "cardCompare lc a b =
     (case find (\<lambda>key. key a \<noteq> key b) [set_col, rarity, condition] of
        Some key \<Rightarrow> lc (key a) (key b)
      | None \<Rightarrow> lc (product_name a) (product_name b))"
    by (simp add: cardCompare_def)
  show "mset (transformData lc rows) = mset (map normalizeRow (filterCards rows))"
    unfolding transformData_def by (rule mset_Array_sort)
  show "sorted_wrt (spec_keysLe lc [set_col, rarity, condition, product_name])
          (transformData lc rows)"
    if "consistentCollation lc \<and> tiesOnlyEqual lc (map normalizeRow (filterCards rows))"
    unfolding transformData_def using that by (intro sorted_cards) blast+
qed

text \<open>
  A sheet of four rows, one of them the noise row, under the collation that ignores
  case first: the three cards come out by set, then rarity.
\<close>

theorem cards_sorted_by_keys_witness:
  "consistentCollation caseFirstCollate
   \<and> tiesOnlyEqual caseFirstCollate
       (map normalizeRow (filterCards
          [sheetRow ''Dark Magician'' ''Legend of Blue Eyes'' ''LOB-005'' ''Ultra Rare'' ''Near Mint'' ''1'',
           sheetRow ''Kuriboh'' ''Legend of Blue Eyes'' ''LOB-064'' ''Common'' ''Near Mint'' ''2'',
           sheetRow ''Orders Contained in Pull Sheet:'' [] [] [] [] [],
           sheetRow ''Vampire Lord'' ''dark crisis'' ''DCR-000'' ''Secret Rare'' ''Near Mint'' []]))
   \<and> sorted_wrt (spec_keysLe caseFirstCollate [set_col, rarity, condition, product_name])
       (transformData caseFirstCollate
          [sheetRow ''Dark Magician'' ''Legend of Blue Eyes'' ''LOB-005'' ''Ultra Rare'' ''Near Mint'' ''1'',
           sheetRow ''Kuriboh'' ''Legend of Blue Eyes'' ''LOB-064'' ''Common'' ''Near Mint'' ''2'',
           sheetRow ''Orders Contained in Pull Sheet:'' [] [] [] [] [],
           sheetRow ''Vampire Lord'' ''dark crisis'' ''DCR-000'' ''Secret Rare'' ''Near Mint'' []])
   \<and> map product_name
       (transformData caseFirstCollate
          [sheetRow ''Dark Magician'' ''Legend of Blue Eyes'' ''LOB-005'' ''Ultra Rare'' ''Near Mint'' ''1'',
           sheetRow ''Kuriboh'' ''Legend of Blue Eyes'' ''LOB-064'' ''Common'' ''Near Mint'' ''2'',
           sheetRow ''Orders Contained in Pull Sheet:'' [] [] [] [] [],
           sheetRow ''Vampire Lord'' ''dark crisis'' ''DCR-000'' ''Secret Rare'' ''Near Mint'' []])
     = [''Vampire Lord'', ''Kuriboh'', ''Dark Magician'']"
proof -
  have "map product_name
       (transformData caseFirstCollate
          [sheetRow ''Dark Magician'' ''Legend of Blue Eyes'' ''LOB-005'' ''Ultra Rare'' ''Near Mint'' ''1'',
           sheetRow ''Kuriboh'' ''Legend of Blue Eyes'' ''LOB-064'' ''Common'' ''Near Mint'' ''2'',
           sheetRow ''Orders Contained in Pull Sheet:'' [] [] [] [] [],
           sheetRow ''Vampire Lord'' ''dark crisis'' ''DCR-000'' ''Secret Rare'' ''Near Mint'' []])
     = [''Vampire Lord'', ''Kuriboh'', ''Dark Magician'']"
    by code_simp
  then show ?thesis
    using caseFirst_consistent
      caseFirst_ties [of "map normalizeRow (filterCards
          [sheetRow ''Dark Magician'' ''Legend of Blue Eyes'' ''LOB-005'' ''Ultra Rare'' ''Near Mint'' ''1'',
           sheetRow ''Kuriboh'' ''Legend of Blue Eyes'' ''LOB-064'' ''Common'' ''Near Mint'' ''2'',
           sheetRow ''Orders Contained in Pull Sheet:'' [] [] [] [] [],
           sheetRow ''Vampire Lord'' ''dark crisis'' ''DCR-000'' ''Secret Rare'' ''Near Mint'' []])"]
      cards_sorted_by_keys [where lc = caseFirstCollate and rows =
         "[sheetRow ''Dark Magician'' ''Legend of Blue Eyes'' ''LOB-005'' ''Ultra Rare'' ''Near Mint'' ''1'',
           sheetRow ''Kuriboh'' ''Legend of Blue Eyes'' ''LOB-064'' ''Common'' ''Near Mint'' ''2'',
           sheetRow ''Orders Contained in Pull Sheet:'' [] [] [] [] [],
           sheetRow ''Vampire Lord'' ''dark crisis'' ''DCR-000'' ''Secret Rare'' ''Near Mint'' []]"]
    by blast
qed

text \<open>
  C3 as stated fails: the comparison is not the plain one. Under a collation that
  ignores case first, the sets \<^verbatim>\<open>Zexal Collection\<close> and \<^verbatim>\<open>astral pack\<close> come out with
  \<^verbatim>\<open>astral pack\<close> first, where the plain comparison of the specification's wording puts
  \<^verbatim>\<open>Zexal Collection\<close> first.
\<close>

theorem plain_comparison_counterexample:
  "map set_col (transformData caseFirstCollate
      [sheetRow ''Number 39: Utopia'' ''Zexal Collection'' ''ZTIN-001'' ''Rare'' ''Near Mint'' ''1'',
       sheetRow ''Kuriboh'' ''astral pack'' ''AP01-002'' ''Common'' ''Near Mint'' ''1''])
     = [''astral pack'', ''Zexal Collection'']
   \<and> map set_col (spec_plainSort (map normalizeRow (filterCards
      [sheetRow ''Number 39: Utopia'' ''Zexal Collection'' ''ZTIN-001'' ''Rare'' ''Near Mint'' ''1'',
       sheetRow ''Kuriboh'' ''astral pack'' ''AP01-002'' ''Common'' ''Near Mint'' ''1''])))
     = [''Zexal Collection'', ''astral pack'']"
  by code_simp

text \<open>
  C4. Filtering keeps, in their order, exactly the records that have no string value
  containing a noise text: \<^verbatim>\<open>Orders Contained in Pull Sheet\<close> as written in the generic
  variant; \<^verbatim>\<open>orders contained in pull sheet\<close> or \<^verbatim>\<open>pull sheet\<close> in the lower-cased value
  in the card variant. A number or a boolean is never a match.
\<close>

theorem filter_removes_noise_rows:
  "filterRows rows =
     filter (\<lambda>row. \<not> (\<exists>k s p q. (k, VStr s) \<in> set row
                          \<and> s = p @ ''Orders Contained in Pull Sheet'' @ q)) rows
   \<and> filterCards cards =
     filter (\<lambda>row. \<not> (\<exists>k v p q. (k, v) \<in> set row
                          \<and> (toLowerCase v = p @ ''orders contained in pull sheet'' @ q
                             \<or> toLowerCase v = p @ ''pull sheet'' @ q))) cards
   \<and> subseq (filterRows rows) rows \<and> subseq (filterCards cards) cards
   \<and> \<not> isNoiseValue (VNum n) \<and> \<not> isNoiseValue (VBool b)"
  unfolding filterRows_def filterCards_def list_ex_noise_generic list_ex_noise_cards
  by simp

text \<open>
  C5. Sorting is a permutation: the sorted array of the generic variant holds exactly
  the records of the dataset, each as often, for every list of sort columns.
\<close>

theorem sort_is_permutation: "mset (sortRows js cols D) = mset D"
  unfolding sortRows_def by (rule mset_Array_sort)

text \<open>
  C6, where the code fails it. In the generic variant the completion handler throws a
  TypeError on an empty filtered row sequence, after it has set the empty dataset: with
  no data row at all, and with a noise row as the only data row. The download is then
  not offered. The card variant sets the empty dataset at the same input and returns.
\<close>

theorem complete_throws_on_empty:
  "complete st \<lparr>data = [], errors = []\<rparr> = Threw TypeError (st\<lparr>csvData := []\<rparr>)
   \<and> complete st
       \<lparr>data = [[(''Name'', VStr ''Orders Contained in Pull Sheet - Page 1'')]], errors = []\<rparr>
     = Threw TypeError (st\<lparr>csvData := []\<rparr>)
   \<and> \<not> downloadOffered (st\<lparr>csvData := []\<rparr>)
   \<and> handleFileUpload_c lc cst (Parsed \<lparr>data = [], errors = []\<rparr>)
     = cst\<lparr>error_c := [], csvData_c := []\<rparr>"
  by (simp add: complete_def filterRows_def at_index_def Object_values_def downloadOffered_def
        handleFileUpload_c_def transformData_def filterCards_def Array_sort_def)

text \<open>
  C7. In the card variant's normalization \<open>qty\<close> is the raw Quantity value when that is
  present and not empty, and the literal string "1" when Quantity is absent or the empty
  string; \<open>qty\<close> differs from the raw value exactly in the latter case.
\<close>

theorem qty_default:
  "((map_of row ''Quantity'' = None \<or> map_of row ''Quantity'' = Some [])
      \<longrightarrow> qty (normalizeRow row) = ''1'')
   \<and> (\<forall>q. map_of row ''Quantity'' = Some q \<and> q \<noteq> [] \<longrightarrow> qty (normalizeRow row) = q)
   \<and> (Some (qty (normalizeRow row)) \<noteq> map_of row ''Quantity''
        \<longleftrightarrow> map_of row ''Quantity'' = None \<or> map_of row ''Quantity'' = Some [])"
  by (auto simp: qty_normalizeRow orElse_def split: option.splits)

text \<open>The rows of the specification's scenario 1, and a row without Quantity.\<close>

theorem qty_default_witness:
  "qty (normalizeRow [(''Number'', ''LOB-002-EN''), (''Quantity'', []), (''Rarity'', ''Rare'')])
     = ''1''
   \<and> qty (normalizeRow [(''Number'', ''LOB-001-EN''), (''Quantity'', ''2''), (''Rarity'', ''Common'')])
     = ''2''
   \<and> qty (normalizeRow [(''Number'', ''LOB-003-EN'')]) = ''1''"
  using qty_default [of "[(''Number'', ''LOB-002-EN''), (''Quantity'', []), (''Rarity'', ''Rare'')]"]
    qty_default [of "[(''Number'', ''LOB-001-EN''), (''Quantity'', ''2''), (''Rarity'', ''Common'')]"]
    qty_default [of "[(''Number'', ''LOB-003-EN'')]"]
  by simp

text \<open>
  C8. Filtering is idempotent in both variants: filtering an already filtered dataset
  gives the same dataset.
\<close>

theorem filter_idempotent:
  "filterRows (filterRows rows) = filterRows rows
   \<and> filterCards (filterCards cards) = filterCards cards"
  by (simp add: filterRows_def filterCards_def)

text \<open>
  C9, as the code has it.
  \<^item> Card variant: when the parser's result carries errors, the message of the first is
    set and the dataset state is left as it was, so the records of an earlier upload
    stay; when the parse is rejected, a fixed message is set and the dataset is left as
    it was; when the result carries no error, the error message is cleared and the
    dataset is replaced by the filtered, normalized and sorted rows of the file.
  \<^item> Generic variant: when the parser calls the error callback, a fixed message is set
    and the dataset is left as it was; when the parse completes, with or without errors
    in its result, the dataset is set to the filtered rows of the file and the error
    message is left as it was.
\<close>

theorem upload_outcome:
  "(\<forall>message rest. errors results = message # rest \<longrightarrow>
      handleFileUpload_c lc st (Parsed results) = st\<lparr>error_c := message\<rparr>
      \<and> csvData_c (handleFileUpload_c lc st (Parsed results)) = csvData_c st)
   \<and> (errors results = [] \<longrightarrow>
        error_c (handleFileUpload_c lc st (Parsed results)) = []
        \<and> csvData_c (handleFileUpload_c lc st (Parsed results)) = transformData lc (data results))
   \<and> error_c (handleFileUpload_c lc st ParseFailed) = ''Error processing CSV file''
   \<and> csvData_c (handleFileUpload_c lc st ParseFailed) = csvData_c st
   \<and> handleFileUpload gst ParseFailed = Done (gst\<lparr>error := ''Error parsing CSV file''\<rparr>)
   \<and> csvData (gst\<lparr>error := ''Error parsing CSV file''\<rparr>) = csvData gst
   \<and> csvData (stateOf (handleFileUpload gst (Parsed gresults))) = filterRows (data gresults)
   \<and> error (stateOf (handleFileUpload gst (Parsed gresults))) = error gst"
  by (simp add: handleFileUpload_c_def handleFileUpload_def complete_def Let_def
           split: option.splits)

text \<open>
  In the card variant an upload with a parse error over a dataset of one card, then an
  upload without error; in the generic variant a completed parse whose result carries an
  error.
\<close>

theorem upload_outcome_witness:
  "handleFileUpload_c caseFirstCollate
      \<lparr>csvData_c = [normalizeRow (sheetRow ''Kuriboh'' ''Metal Raiders'' ''MRD-071'' ''Super Rare'' ''Near Mint'' ''1'')],
       error_c = []\<rparr>
      (Parsed \<lparr>data = [], errors = [''Too few fields'']\<rparr>)
    = \<lparr>csvData_c = [normalizeRow (sheetRow ''Kuriboh'' ''Metal Raiders'' ''MRD-071'' ''Super Rare'' ''Near Mint'' ''1'')],
       error_c = ''Too few fields''\<rparr>
   \<and> handleFileUpload_c caseFirstCollate
      \<lparr>csvData_c = [normalizeRow (sheetRow ''Kuriboh'' ''Metal Raiders'' ''MRD-071'' ''Super Rare'' ''Near Mint'' ''1'')],
       error_c = ''Too few fields''\<rparr>
      (Parsed \<lparr>data = [sheetRow ''Vampire Lord'' ''Dark Crisis'' ''DCR-000'' ''Secret Rare'' ''Near Mint'' ''1''],
               errors = []\<rparr>)
    = \<lparr>csvData_c = [normalizeRow (sheetRow ''Vampire Lord'' ''Dark Crisis'' ''DCR-000'' ''Secret Rare'' ''Near Mint'' ''1'')],
       error_c = []\<rparr>
   \<and> handleFileUpload
      \<lparr>csvData = [[(''name'', VStr ''old'')]], headers = [''name''], sortColumns = [],
       sortedData = [], error = []\<rparr>
      (Parsed \<lparr>data = [[(''name'', VStr ''y''), (''constructor'', VStr ''g'')], [(''name'', VStr ''x'')]],
               errors = [''Too few fields'']\<rparr>)
    = Done \<lparr>csvData = [[(''name'', VStr ''y''), (''constructor'', VStr ''g'')], [(''name'', VStr ''x'')]],
            headers = [''name'', ''constructor''], sortColumns = [], sortedData = [], error = []\<rparr>"
proof -
  have n: "\<not> isNoiseCell ''Vampire Lord''" "\<not> isNoiseCell ''Dark Crisis''"
    "\<not> isNoiseCell ''DCR-000''" "\<not> isNoiseCell ''Secret Rare''"
    "\<not> isNoiseCell ''Near Mint''" "\<not> isNoiseCell ''1''"
    by code_simp+
  have g: "\<not> isNoiseValue (VStr ''y'')" "\<not> isNoiseValue (VStr ''g'')" "\<not> isNoiseValue (VStr ''x'')"
    by code_simp+
  show ?thesis
    using upload_outcome [of "\<lparr>data = [], errors = [''Too few fields'']\<rparr>" caseFirstCollate
      "\<lparr>csvData_c = [normalizeRow (sheetRow ''Kuriboh'' ''Metal Raiders'' ''MRD-071'' ''Super Rare'' ''Near Mint'' ''1'')],
        error_c = []\<rparr>"]
      upload_outcome [of "\<lparr>data = [sheetRow ''Vampire Lord'' ''Dark Crisis'' ''DCR-000'' ''Secret Rare'' ''Near Mint'' ''1''],
               errors = []\<rparr>" caseFirstCollate
      "\<lparr>csvData_c = [normalizeRow (sheetRow ''Kuriboh'' ''Metal Raiders'' ''MRD-071'' ''Super Rare'' ''Near Mint'' ''1'')],
        error_c = ''Too few fields''\<rparr>"]
    by (simp add: handleFileUpload_c_def transformData_def filterCards_def Array_sort_def
          Object_values_def sheetRow_def n handleFileUpload_def complete_def filterRows_def
          at_index_def Object_keys_def g del: isNoiseValue.simps)
qed

text \<open>
  C9 as stated fails: after an upload whose parse reports an error, over a dataset of
  one card from an earlier upload, the error banner and the dataset are both shown.
\<close>

theorem upload_error_counterexample:
  "errorShown_c
     (handleFileUpload_c plainCompare
        \<lparr>csvData_c = [normalizeRow [(''Number'', ''LOB-001'')]], error_c = []\<rparr>
        (Parsed \<lparr>data = [], errors = [''Too few fields'']\<rparr>))
   \<and> datasetShown_c
     (handleFileUpload_c plainCompare
        \<lparr>csvData_c = [normalizeRow [(''Number'', ''LOB-001'')]], error_c = []\<rparr>
        (Parsed \<lparr>data = [], errors = [''Too few fields'']\<rparr>))"
  by (simp add: handleFileUpload_c_def errorShown_c_def datasetShown_c_def)

text \<open>
  C10. In the generic variant, sorting a dataset that is not empty with an empty list
  of sort columns gives the records in their original order.
\<close>

theorem empty_spec_keeps_order:
  assumes "csvData st \<noteq> []" and "sortColumns st = []"
  shows "sortedData (handleSort js st) = csvData st"
proof -
  have "sortRows js [] (csvData st) = csvData st"
    unfolding sortRows_def by (rule Array_sort_ties) simp
  with assms show ?thesis by (simp add: handleSort_def)
qed

text \<open>Three rows and no sort column.\<close>

theorem empty_spec_keeps_order_witness:
  "sortedData (handleSort sampleEngine
     \<lparr>csvData = [[(''price'', VNum 10)], [(''price'', VNum 2)], [(''price'', VNum 30)]],
      headers = [''price''], sortColumns = [], sortedData = [], error = []\<rparr>)
   = [[(''price'', VNum 10)], [(''price'', VNum 2)], [(''price'', VNum 30)]]"
  using empty_spec_keeps_order [of
     "\<lparr>csvData = [[(''price'', VNum 10)], [(''price'', VNum 2)], [(''price'', VNum 30)]],
      headers = [''price''], sortColumns = [], sortedData = [], error = []\<rparr>" sampleEngine]
  by simp

end
